theory Spec2Isabelle
  imports Complex_Main "HOL-Library.Sublist"
begin

section \<open>Strings as the clients use them\<close>

text \<open>
  The TypeScript sources work on JavaScript strings.  A string is modelled as a
  \<^typ>\<open>string\<close> (a list of characters), \<open>text.length\<close> as \<^const>\<open>length\<close>.  Calls to
  \<open>elizaLogger\<close> and \<open>console\<close> write diagnostics only; they read no state the
  clients branch on and are left out of every definition below.
\<close>

text \<open>\<open>String.prototype.trim\<close> removes white space at both ends.\<close>

definition is_ws :: "char \<Rightarrow> bool" where
  "is_ws c = (c \<in> set [CHR 0x09, CHR 0x0A, CHR 0x0B, CHR 0x0C, CHR 0x0D, CHR 0x20, CHR 0xA0])"

definition trim :: "string \<Rightarrow> string" where
  "trim s = rev (dropWhile is_ws (rev (dropWhile is_ws s)))"

text \<open>
  \<open>text.lastIndexOf(c, position)\<close> for a one-character search string: the greatest
  index \<open>i \<le> position\<close> with \<open>text[i] = c\<close>, and \<open>-1\<close> when there is none.
\<close>

definition lastIndexOf :: "string \<Rightarrow> char \<Rightarrow> nat \<Rightarrow> int" where
  "lastIndexOf text c position =
     (case dropWhile (\<lambda>x. x \<noteq> c) (rev (take (Suc position) text)) of
        [] \<Rightarrow> - 1
      | r \<Rightarrow> int (length r) - 1)"

text \<open>
  \<open>text.slice(0, end)\<close>: a negative \<open>end\<close> counts from the end of the string
  (\<open>max (length + end) 0\<close>), an \<open>end\<close> beyond the string is cut at its length.
\<close>

definition slice0 :: "string \<Rightarrow> int \<Rightarrow> string" where
  "slice0 text e =
     (if e < 0 then take (nat (int (length text) + e)) text else take (nat e) text)"

section \<open>post.ts: truncateToCompleteSentence\<close>

definition MAX_TWEET_LENGTH :: nat where
  "MAX_TWEET_LENGTH = 240"

definition truncateToCompleteSentence :: "string \<Rightarrow> string" where
  "truncateToCompleteSentence text =
     (if length text \<le> MAX_TWEET_LENGTH then text
      else
        let truncatedAtPeriod = slice0 text (lastIndexOf text (CHR ''.'') MAX_TWEET_LENGTH + 1)
        in if length (trim truncatedAtPeriod) > 0 then trim truncatedAtPeriod
           else
             let truncatedAtSpace = slice0 text (lastIndexOf text (CHR '' '') MAX_TWEET_LENGTH)
             in if length (trim truncatedAtSpace) > 0 then trim truncatedAtSpace @ ''...''
                else trim (slice0 text (int MAX_TWEET_LENGTH - 3)) @ ''...'')"


section \<open>JavaScript values read from JSON\<close>

text \<open>
  What \<open>JSON.parse\<close> returns.  Numbers are kept as integers: the clients only test
  them for truthiness.  A JavaScript value is a \<open>json option\<close>, \<open>None\<close> standing for
  \<open>undefined\<close>.
\<close>

datatype json =
    JNull
  | JBool bool
  | JNum int
  | JStr string
  | JArr "json list"
  | JObj "(string \<times> json) list"

type_synonym jsval = "json option"

datatype js_error = TypeError | SyntaxError | Error string

text \<open>
  \<open>x.name\<close>: a \<open>TypeError\<close> on \<open>undefined\<close> and \<open>null\<close>, the member of an object (the
  last binding of a repeated key, as \<open>JSON.parse\<close> keeps it), and \<open>undefined\<close> on any
  other value for the member names the clients read.
\<close>

definition js_get :: "jsval \<Rightarrow> string \<Rightarrow> js_error + jsval" where
  "js_get x name =
     (case x of
        None \<Rightarrow> Inl TypeError
      | Some JNull \<Rightarrow> Inl TypeError
      | Some (JObj kvs) \<Rightarrow> Inr (map_of (rev kvs) name)
      | Some _ \<Rightarrow> Inr None)"

text \<open>\<open>x?.name\<close>: \<open>undefined\<close> where \<open>x.name\<close> would throw.\<close>

definition js_get_opt :: "jsval \<Rightarrow> string \<Rightarrow> jsval" where
  "js_get_opt x name = (case js_get x name of Inl e \<Rightarrow> None | Inr v \<Rightarrow> v)"

text \<open>The truthiness test of \<open>if (x)\<close> and \<open>!x\<close>.\<close>

definition truthy :: "jsval \<Rightarrow> bool" where
  "truthy x =
     (case x of
        None \<Rightarrow> False
      | Some JNull \<Rightarrow> False
      | Some (JBool b) \<Rightarrow> b
      | Some (JNum n) \<Rightarrow> n \<noteq> 0
      | Some (JStr t) \<Rightarrow> t \<noteq> []
      | Some _ \<Rightarrow> True)"

section \<open>realtimeClient.ts: TokenUpdateClient\<close>

text \<open>\<open>TokenUpdate\<close> of types.ts, as \<open>ws.onmessage\<close> builds it.\<close>

record token_update =
  record_of :: jsval
  oldRecord :: jsval
  timestamp :: jsval

datatype ready_state = CONNECTING | OPEN | CLOSING | CLOSED

text \<open>
  The fields of \<open>TokenUpdateClient\<close>.  \<open>ws\<close> is \<open>null\<close> or a socket, of which the
  client reads the \<open>readyState\<close>; a timer handle is modelled by the delay (in ms) it
  was armed with; \<open>sent\<close> are the frames written with \<open>ws.send\<close> and \<open>emitted\<close> the
  \<open>tokenUpdate\<close> events given to \<open>this.emit\<close>, oldest first.
\<close>

record token_update_client =
  ws :: "ready_state option"
  heartbeatInterval :: "nat option"
  reconnectTimeout :: "nat option"
  isConnected :: bool
  sent :: "json list"
  emitted :: "token_update list"










text \<open>\<open>ws.onerror\<close> logs the error.\<close>

definition onerror :: "token_update_client \<Rightarrow> token_update_client" where
  "onerror c = c"

text \<open>
  The body of the \<open>try\<close> block of \<open>ws.onmessage\<close>, after \<open>JSON.parse\<close>: \<open>Inr (Some u)\<close>
  when \<open>u\<close> is emitted as a \<open>tokenUpdate\<close>, \<open>Inr None\<close> when the message is passed over,
  \<open>Inl e\<close> when a member access throws.
\<close>

definition handle_change :: "json \<Rightarrow> js_error + token_update option" where
  "handle_change data =
     (case js_get (Some data) ''event'' of
        Inl e \<Rightarrow> Inl e
      | Inr ev \<Rightarrow>
          if ev = Some (JStr ''postgres_changes'') then
            (case js_get (Some data) ''payload'' of
               Inl e \<Rightarrow> Inl e
             | Inr payload \<Rightarrow>
                 let change = js_get_opt payload ''data'' in
                 if \<not> truthy change then Inr None
                 else
                   (case js_get change ''type'' of
                      Inl e \<Rightarrow> Inl e
                    | Inr ty \<Rightarrow>
                        (case js_get change ''record'' of
                           Inl e \<Rightarrow> Inl e
                         | Inr r \<Rightarrow>
                             if ty = Some (JStr ''UPDATE'')
                                \<and> js_get_opt r ''processing_stage'' = Some (JStr ''completed'')
                             then Inr (Some \<lparr>record_of = r,
                                              oldRecord = js_get_opt change ''old_record'',
                                              timestamp = js_get_opt change ''commit_timestamp''\<rparr>)
                             else Inr None)))
          else Inr None)"

text \<open>
  \<open>ws.onmessage\<close>.  \<open>parse\<close> is \<open>JSON.parse\<close> on the text of the frame; its
  \<open>SyntaxError\<close> and every error of the body are caught and logged.
\<close>

definition onmessage :: "(string \<Rightarrow> js_error + json) \<Rightarrow> token_update_client \<Rightarrow> string \<Rightarrow> token_update_client" where
  "onmessage parse c raw =
     (case parse raw of
        Inl e \<Rightarrow> c
      | Inr data \<Rightarrow>
          (case handle_change data of
             Inl e \<Rightarrow> c
           | Inr None \<Rightarrow> c
           | Inr (Some u) \<Rightarrow> c\<lparr>emitted := emitted c @ [u]\<rparr>))"

text \<open>The change type and the processing stage an inbound frame carries.\<close>

definition change_of :: "json \<Rightarrow> jsval" where
  "change_of data = js_get_opt (js_get_opt (Some data) ''payload'') ''data''"

definition change_type :: "json \<Rightarrow> jsval" where
  "change_type data = js_get_opt (change_of data) ''type''"

definition processing_stage :: "json \<Rightarrow> jsval" where
  "processing_stage data = js_get_opt (js_get_opt (change_of data) ''record'') ''processing_stage''"

text \<open>
  Two frames: a completed UPDATE of token \<open>t1\<close>, and an UPDATE of the same token
  that is still pending.
\<close>

definition completed_frame :: json where
  "completed_frame =
     JObj [(''event'', JStr ''postgres_changes''),
           (''payload'', JObj [(''data'',
              JObj [(''type'', JStr ''UPDATE''), (''table'', JStr ''new_tokens''),
                    (''schema'', JStr ''public''),
                    (''record'', JObj [(''id'', JStr ''t1''), (''token_id'', JStr ''t1''),
                                       (''processing_stage'', JStr ''completed'')]),
                    (''commit_timestamp'', JStr ''2024-12-01T00:00:00Z'')])])]"

definition pending_frame :: json where
  "pending_frame =
     JObj [(''event'', JStr ''postgres_changes''),
           (''payload'', JObj [(''data'',
              JObj [(''type'', JStr ''UPDATE''), (''table'', JStr ''new_tokens''),
                    (''schema'', JStr ''public''),
                    (''record'', JObj [(''id'', JStr ''t1''), (''token_id'', JStr ''t1''),
                                       (''processing_stage'', JStr ''pending'')]),
                    (''commit_timestamp'', JStr ''2024-12-01T00:00:00Z'')])])]"

definition idle_client :: token_update_client where
  "idle_client = \<lparr>ws = Some OPEN, heartbeatInterval = Some 30000, reconnectTimeout = None,
                   isConnected = True, sent = [], emitted = []\<rparr>"


section \<open>tokenProcessingClient.ts: TokenProcessingClient\<close>

text \<open>
  What the awaited collaborators of one run of the handler body answer: \<open>None\<close>
  (or \<open>Inr\<close>) when the promise resolves, the error when it rejects.
\<close>

record handler_run =
  ensureRoomExists :: "js_error option"
  ensureParticipantInRoom :: "js_error option"
  composeState :: "js_error option"
  generateText :: "js_error + string"
  createMemory :: "js_error option"

text \<open>
  An element of the \<open>Set\<close> \<open>processingTokens\<close>.  \<open>Set.has\<close>, \<open>Set.add\<close> and
  \<open>Set.delete\<close> compare a string, a number or a boolean by its value and an object or
  an array by its identity, which is modelled by the address of the object.
\<close>

datatype set_key = ByValue json | ByIdentity nat

datatype processing_event =
    ProcessingComplete set_key
  | ProcessingError set_key string

text \<open>
  \<open>error?.message || 'Unknown error'\<close>.  The message of an \<open>Error\<close> the code creates is
  the text it was created with; the message of a \<open>TypeError\<close> or \<open>SyntaxError\<close> is the
  JavaScript engine's, given by \<open>engine_message\<close>.
\<close>

definition message_of :: "(js_error \<Rightarrow> string) \<Rightarrow> js_error \<Rightarrow> string" where
  "message_of engine_message e = (case e of Error m \<Rightarrow> m | _ \<Rightarrow> engine_message e)"

definition message_or_unknown :: "(js_error \<Rightarrow> string) \<Rightarrow> js_error \<Rightarrow> string" where
  "message_or_unknown engine_message e =
     (if message_of engine_message e = [] then ''Unknown error'' else message_of engine_message e)"

text \<open>
  The fields of \<open>TokenProcessingClient\<close>, and with them the handler bodies that have
  passed the guard and are suspended at an \<open>await\<close> (\<open>in_flight\<close>, with the key and the
  update each was called on) and the events emitted so far.
\<close>

record token_processing_client =
  processingTokens :: "set_key set"
  in_flight :: "(set_key \<times> token_update) list"
  events :: "processing_event list"

definition new_client :: token_processing_client where
  "new_client = \<lparr>processingTokens = {}, in_flight = [], events = []\<rparr>"

text \<open>\<open>update?.record?.token_id\<close>, when it is truthy.\<close>

definition token_id_of :: "token_update \<Rightarrow> json option" where
  "token_id_of u =
     (let t = js_get_opt (record_of u) ''token_id'' in if truthy t then t else None)"

text \<open>
  The key under which the \<open>Set\<close> holds the token id of an update; \<open>address\<close> is where
  the token id lives when it is an object or an array (every \<open>JSON.parse\<close> allocates
  the objects it returns).
\<close>

definition is_primitive :: "json \<Rightarrow> bool" where
  "is_primitive v = (case v of JObj kvs \<Rightarrow> False | JArr vs \<Rightarrow> False | _ \<Rightarrow> True)"

definition set_key_of :: "nat \<Rightarrow> token_update \<Rightarrow> set_key option" where
  "set_key_of address u =
     (case token_id_of u of
        None \<Rightarrow> None
      | Some v \<Rightarrow> if is_primitive v then Some (ByValue v) else Some (ByIdentity address))"

text \<open>
  \<open>processTokenUpdate\<close> up to its first \<open>await\<close>: an update without a token id and
  an update whose token id is in \<open>processingTokens\<close> return at once; otherwise the id
  is added and the body starts.  JavaScript runs this part without interruption.
\<close>

definition processTokenUpdate_enter ::
  "token_processing_client \<Rightarrow> nat \<Rightarrow> token_update \<Rightarrow> token_processing_client" where
  "processTokenUpdate_enter c address u =
     (case set_key_of address u of
        None \<Rightarrow> c
      | Some tokenId \<Rightarrow>
          if tokenId \<in> processingTokens c then c
          else c\<lparr>processingTokens := insert tokenId (processingTokens c),
                 in_flight := in_flight c @ [(tokenId, u)]\<rparr>)"

text \<open>Parsing and validating the model's answer, with its own \<open>try\<close>/\<open>catch\<close>.\<close>

definition validate_analysis :: "json \<Rightarrow> js_error + json" where
  "validate_analysis analysis =
     (case js_get (Some analysis) ''summary'' of
        Inl e \<Rightarrow> Inl e
      | Inr summary \<Rightarrow>
          if \<not> truthy summary \<or> \<not> truthy (js_get_opt (Some analysis) ''metrics'')
             \<or> \<not> truthy (js_get_opt (Some analysis) ''insights'')
             \<or> \<not> truthy (js_get_opt (Some analysis) ''patterns'')
          then Inl (Error ''Invalid analysis format: missing required fields'')
          else Inr analysis)"

definition parse_analysis ::
  "(js_error \<Rightarrow> string) \<Rightarrow> (string \<Rightarrow> js_error + json) \<Rightarrow> string \<Rightarrow> js_error + json" where
  "parse_analysis engine_message parse analysisResponse =
     (case (case parse analysisResponse of Inl e \<Rightarrow> Inl e | Inr a \<Rightarrow> validate_analysis a) of
        Inl e \<Rightarrow> Inl (Error (''Failed to parse LLM response: '' @ message_or_unknown engine_message e))
      | Inr a \<Rightarrow> Inr a)"

text \<open>
  The \<open>try\<close> block of \<open>processTokenUpdate\<close>: \<open>Inr\<close> the analysis stored when it runs
  to its end, \<open>Inl\<close> the error thrown otherwise.  \<open>parse\<close> is the match of the fenced
  block followed by \<open>JSON.parse\<close>.
\<close>

definition handler_body ::
  "(js_error \<Rightarrow> string) \<Rightarrow> (string \<Rightarrow> js_error + json) \<Rightarrow> handler_run \<Rightarrow> js_error + json" where
  "handler_body engine_message parse r =
     (case ensureRoomExists r of
        Some e \<Rightarrow> Inl e
      | None \<Rightarrow>
     (case ensureParticipantInRoom r of
        Some e \<Rightarrow> Inl e
      | None \<Rightarrow>
     (case composeState r of
        Some e \<Rightarrow> Inl e
      | None \<Rightarrow>
     (case generateText r of
        Inl e \<Rightarrow> Inl e
      | Inr analysisResponse \<Rightarrow>
     (case parse_analysis engine_message parse analysisResponse of
        Inl e \<Rightarrow> Inl e
      | Inr analysis \<Rightarrow>
     (case createMemory r of
        Some e \<Rightarrow> Inl (Error (''Failed to create memory entry: '' @ message_or_unknown engine_message e))
      | None \<Rightarrow> Inr analysis))))))"

text \<open>
  The rest of \<open>processTokenUpdate\<close> for the handler of \<open>tokenId\<close>: the body runs with
  the answers \<open>r\<close>, the \<open>catch\<close> turns an error into a \<open>processingError\<close> event, and the
  \<open>finally\<close> deletes the token id.
\<close>

definition processTokenUpdate_settle ::
  "(js_error \<Rightarrow> string) \<Rightarrow> (string \<Rightarrow> js_error + json) \<Rightarrow> token_processing_client \<Rightarrow> set_key
     \<Rightarrow> token_update \<Rightarrow> handler_run \<Rightarrow> token_processing_client" where
  "processTokenUpdate_settle engine_message parse c tokenId u r =
     (let c1 = (case handler_body engine_message parse r of
                  Inr analysis \<Rightarrow> c\<lparr>events := events c @ [ProcessingComplete tokenId]\<rparr>
                | Inl e \<Rightarrow> c\<lparr>events := events c
                            @ [ProcessingError tokenId (message_or_unknown engine_message e)]\<rparr>)
      in c1\<lparr>processingTokens := processingTokens c1 - {tokenId},
             in_flight := remove1 (tokenId, u) (in_flight c1)\<rparr>)"

text \<open>
  What can happen to the client: an update is delivered (with the address of its token
  id), or the awaits of a handler that is in flight settle.
\<close>

datatype delivery =
    Deliver nat token_update
  | Settle set_key token_update handler_run

fun deliver ::
  "(js_error \<Rightarrow> string) \<Rightarrow> (string \<Rightarrow> js_error + json) \<Rightarrow> token_processing_client \<Rightarrow> delivery
     \<Rightarrow> token_processing_client" where
  "deliver engine_message parse c (Deliver address u) = processTokenUpdate_enter c address u"
| "deliver engine_message parse c (Settle tokenId u r) =
     (if (tokenId, u) \<in> set (in_flight c)
      then processTokenUpdate_settle engine_message parse c tokenId u r else c)"

definition deliveries ::
  "(js_error \<Rightarrow> string) \<Rightarrow> (string \<Rightarrow> js_error + json) \<Rightarrow> delivery list \<Rightarrow> token_processing_client" where
  "deliveries engine_message parse ds = foldl (deliver engine_message parse) new_client ds"

text \<open>
  The invariant of the guard: the set holds exactly the keys of the handlers in
  flight, and no two handlers in flight have the same key.
\<close>

definition guard_inv :: "token_processing_client \<Rightarrow> bool" where
  "guard_inv c = (processingTokens c = fst ` set (in_flight c) \<and> distinct (map fst (in_flight c)))"

text \<open>
  The update \<open>ws.onmessage\<close> emits for the frame \<open>completed_frame\<close>, the same update
  from a second frame, an update whose token id is an object, and runs of the body.
\<close>

definition t1_update :: token_update where
  "t1_update = \<lparr>record_of = Some (JObj [(''id'', JStr ''t1''), (''token_id'', JStr ''t1''),
                                           (''processing_stage'', JStr ''completed'')]),
                 oldRecord = None,
                 timestamp = Some (JStr ''2024-12-01T00:00:00Z'')\<rparr>"

definition t1_update_again :: token_update where
  "t1_update_again = t1_update\<lparr>timestamp := Some (JStr ''2024-12-01T00:00:05Z'')\<rparr>"

definition object_update :: token_update where
  "object_update = \<lparr>record_of = Some (JObj [(''id'', JStr ''t2''),
                                               (''token_id'', JObj [(''mint'', JStr ''t2'')]),
                                               (''processing_stage'', JStr ''completed'')]),
                     oldRecord = None,
                     timestamp = Some (JStr ''2024-12-01T00:00:00Z'')\<rparr>"

definition good_analysis :: json where
  "good_analysis = JObj [(''summary'', JStr ''ok''), (''metrics'', JObj [(''volume_24h'', JNum 1200)]),
                         (''insights'', JArr [JStr ''steady'']), (''patterns'', JArr [JStr ''none''])]"

definition good_answer :: string where
  "good_answer = ''{ summary: ok, metrics: { volume_24h: 1200 }, insights: [steady], patterns: [none] }''"

definition example_parse :: "string \<Rightarrow> js_error + json" where
  "example_parse raw = (if raw = good_answer then Inr good_analysis else Inl SyntaxError)"

definition example_message :: "js_error \<Rightarrow> string" where
  "example_message e = ''Unexpected token''"

definition good_run :: handler_run where
  "good_run = \<lparr>ensureRoomExists = None, ensureParticipantInRoom = None, composeState = None,
                generateText = Inr good_answer, createMemory = None\<rparr>"

definition failing_run :: handler_run where
  "failing_run = good_run\<lparr>generateText := Inl (Error ''model unavailable'')\<rparr>"

section \<open>interactions.ts: TwitterInteractionClient.buildConversationThread\<close>

text \<open>The fields of a \<open>Tweet\<close> the interaction client reads.\<close>

record tweet =
  tweet_id :: string
  username :: string
  tweet_text :: string
  inReplyToStatusId :: "string option"
  conversationId :: string

text \<open>
  \<open>await this.twitterClient.getTweet(id)\<close>: the promise rejects, resolves to \<open>null\<close>,
  or resolves to a tweet.
\<close>

datatype fetch_result = Rejected | NoTweet | Found tweet

text \<open>
  The client instance as \<open>processThread\<close> uses it through \<open>this\<close>.  The memories of
  \<open>this.runtime.messageManager\<close> change during a resolution and are part of the state
  below.
\<close>

record interaction_client =
  twitterUsername :: string
  getTweet :: "string \<Rightarrow> fetch_result"

text \<open>
  What a resolution reads and writes: the closure variables \<open>thread\<close> and \<open>visited\<close>,
  the ids of the tweets that have a memory (the key \<open>stringToUuid(id + "-" + agentId)\<close>
  stands for the tweet id), and the ids passed to \<open>getTweet\<close>, oldest first.
\<close>

record resolution =
  thread :: "tweet list"
  visited :: "string set"
  memories :: "string set"
  fetched :: "string list"

text \<open>
  The block "Handle memory storage" of \<open>processThread\<close>: a tweet that has no memory
  yet gets one (\<open>ensureConnection\<close>, \<open>createMemory\<close>).
\<close>

definition store_memory :: "tweet \<Rightarrow> resolution \<Rightarrow> resolution" where
  "store_memory t s =
     (if tweet_id t \<in> memories s then s
      else s\<lparr>memories := insert (tweet_id t) (memories s)\<rparr>)"

text \<open>
  The inner \<open>async function processThread(currentTweet, depth)\<close>.  It is a function
  declaration, so its \<open>this\<close> is whatever the call supplies: \<open>Some\<close> the client for
  the call \<open>processThread.bind(this)(tweet, 0)\<close>, and \<open>None\<close> (\<open>undefined\<close>, the
  module being strict code) for the plain call \<open>processThread(parentTweet, depth + 1)\<close>
  the function makes on itself.  The depth test comes before the first use of \<open>this\<close>;
  reading \<open>this.runtime\<close> with \<open>this\<close> undefined throws a \<open>TypeError\<close>.  The recursive
  call is awaited inside the \<open>try\<close> whose \<open>catch\<close> logs the error, so what the call
  throws ends there.  The result is the error the call throws, if any, and the state
  it leaves.  The calls to the memory store (\<open>getMemoryById\<close>, \<open>ensureConnection\<close>)
  are taken to resolve; a rejecting \<open>getTweet\<close> is caught by the same \<open>try\<close>.
\<close>

function processThread ::
  "interaction_client option \<Rightarrow> nat \<Rightarrow> tweet \<Rightarrow> nat \<Rightarrow> resolution \<Rightarrow> js_error option \<times> resolution" where
  "processThread this maxReplies currentTweet depth s =
     (if depth \<ge> maxReplies then (None, s)
      else
        (case this of
           None \<Rightarrow> (Some TypeError, s)
         | Some self \<Rightarrow>
             let s1 = store_memory currentTweet s
             in if tweet_id currentTweet \<in> visited s1 then (None, s1)
                else
                  let s2 = s1\<lparr>visited := insert (tweet_id currentTweet) (visited s1),
                              thread := currentTweet # thread s1\<rparr>
                  in (case inReplyToStatusId currentTweet of
                        None \<Rightarrow> (None, s2)
                      | Some parentId \<Rightarrow>
                          if parentId = [] then (None, s2)
                          else
                            let s3 = s2\<lparr>fetched := fetched s2 @ [parentId]\<rparr>
                            in (case getTweet self parentId of
                                  Rejected \<Rightarrow> (None, s3)
                                | NoTweet \<Rightarrow> (None, s3)
                                | Found parentTweet \<Rightarrow>
                                    (None, snd (processThread None maxReplies parentTweet (depth + 1) s3))))))"
  by pat_completeness auto
termination
  by (relation "measure (\<lambda>(this, maxReplies, currentTweet, depth, s). maxReplies - depth)") auto

declare processThread.simps [simp del]

definition new_resolution :: "string set \<Rightarrow> resolution" where
  "new_resolution mem = \<lparr>thread = [], visited = {}, memories = mem, fetched = []\<rparr>"

text \<open>
  \<open>buildConversationThread(tweet, maxReplies)\<close> on the client \<open>self\<close> whose memory
  store holds \<open>mem\<close>: the state the resolution ends in, and the value the method
  returns (\<open>Inl\<close> when the outer call of \<open>processThread\<close> throws).
\<close>

definition resolve :: "interaction_client \<Rightarrow> string set \<Rightarrow> tweet \<Rightarrow> nat \<Rightarrow> js_error option \<times> resolution" where
  "resolve self mem tweet maxReplies = processThread (Some self) maxReplies tweet 0 (new_resolution mem)"

definition buildConversationThread :: "interaction_client \<Rightarrow> string set \<Rightarrow> tweet \<Rightarrow> nat \<Rightarrow> js_error + tweet list" where
  "buildConversationThread self mem tweet maxReplies =
     (case resolve self mem tweet maxReplies of
        (Some e, s) \<Rightarrow> Inl e
      | (None, s) \<Rightarrow> Inr (thread s))"

text \<open>
  The invariant of a resolution: the ids of the thread are pairwise different and
  all of them are in \<open>visited\<close>.
\<close>

definition thread_inv :: "resolution \<Rightarrow> bool" where
  "thread_inv s = (distinct (map tweet_id (thread s)) \<and> tweet_id ` set (thread s) \<subseteq> visited s)"

text \<open>The reply chain A \<open>\<leftarrow>\<close> B \<open>\<leftarrow>\<close> C, and a cycle A \<open>\<rightarrow>\<close> B \<open>\<rightarrow>\<close> A.\<close>

definition tweetA :: tweet where
  "tweetA = \<lparr>tweet_id = ''A'', username = ''alice'', tweet_text = ''first'',
              inReplyToStatusId = None, conversationId = ''A''\<rparr>"

definition tweetB :: tweet where
  "tweetB = \<lparr>tweet_id = ''B'', username = ''bob'', tweet_text = ''second'',
              inReplyToStatusId = Some ''A'', conversationId = ''A''\<rparr>"

definition tweetC :: tweet where
  "tweetC = \<lparr>tweet_id = ''C'', username = ''carol'', tweet_text = ''third'',
              inReplyToStatusId = Some ''B'', conversationId = ''A''\<rparr>"

definition chain_client :: interaction_client where
  "chain_client = \<lparr>twitterUsername = ''agent'',
                    getTweet = (\<lambda>i. if i = ''A'' then Found tweetA
                                     else if i = ''B'' then Found tweetB
                                     else if i = ''C'' then Found tweetC else NoTweet)\<rparr>"

definition cycle_client :: interaction_client where
  "cycle_client = \<lparr>twitterUsername = ''agent'',
                    getTweet = (\<lambda>i. if i = ''A'' then Found (tweetA\<lparr>inReplyToStatusId := Some ''B''\<rparr>)
                                     else if i = ''B'' then Found tweetB else NoTweet)\<rparr>"


section \<open>interactions.ts: the decision part of handleTweet\<close>

text \<open>
  \<open>toLowerCase\<close> on the letters A to Z, and \<open>haystack.includes(needle)\<close>.
\<close>

definition lower_char :: "char \<Rightarrow> char" where
  "lower_char c =
     (case map_of (zip ''ABCDEFGHIJKLMNOPQRSTUVWXYZ'' ''abcdefghijklmnopqrstuvwxyz'') c of
        Some l \<Rightarrow> l
      | None \<Rightarrow> c)"

definition toLowerCase :: "string \<Rightarrow> string" where
  "toLowerCase t = map lower_char t"

fun includes_str :: "string \<Rightarrow> string \<Rightarrow> bool" where
  "includes_str [] needle = (needle = [])"
| "includes_str (c # cs) needle = (prefix needle (c # cs) \<or> includes_str cs needle)"

text \<open>
  What \<open>generateShouldRespond\<close> resolves to: one of the three tokens, or \<open>null\<close>.
\<close>

datatype should_respond = RESPOND | IGNORE | STOP | NoAnswer

text \<open>
  How \<open>handleTweet\<close> ends as far as the decision goes: the bare \<open>return\<close> of the
  standalone test, a returned object \<open>{text, action}\<close>, or control reaching
  \<open>generateMessageResponse\<close>, after which the reply is composed and sent.  \<open>asked\<close>
  tells whether \<open>generateShouldRespond\<close> was called.
\<close>

datatype handle_result =
    ReturnsNothing
  | Returns string should_respond
  | Responds

record handled =
  outcome :: handle_result
  asked :: bool

definition isInBotThread :: "interaction_client \<Rightarrow> tweet \<Rightarrow> tweet list \<Rightarrow> bool" where
  "isInBotThread self tw thr =
     list_ex (\<lambda>t. username t = twitterUsername self
                  \<and> (Some (tweet_id t) = inReplyToStatusId tw \<or> tweet_id t = conversationId tw)) thr"

text \<open>The test "bot's standalone tweet with no context".\<close>

definition isStandalone :: "interaction_client \<Rightarrow> tweet \<Rightarrow> tweet list \<Rightarrow> bool" where
  "isStandalone self tw thr =
     (username tw = twitterUsername self
      \<and> (inReplyToStatusId tw = None \<or> inReplyToStatusId tw = Some [])
      \<and> length thr = 1)"

text \<open>
  \<open>handleTweet({tweet, message, thread})\<close> up to the decision; \<open>messageText\<close> is
  \<open>message.content.text\<close> (the caller passes the tweet's text) and \<open>answer\<close> what
  \<open>generateShouldRespond\<close> resolves to when it is called.  What is awaited between
  the tests (the home timeline, \<open>composeState\<close>, the memory lookup) is taken to
  resolve and has no part in the decision.
\<close>

definition handleTweet ::
  "interaction_client \<Rightarrow> should_respond \<Rightarrow> tweet \<Rightarrow> string \<Rightarrow> tweet list \<Rightarrow> handled" where
  "handleTweet self answer tw messageText thr =
     (if isStandalone self tw thr then \<lparr>outcome = ReturnsNothing, asked = False\<rparr>
      else if messageText = [] then \<lparr>outcome = Returns [] IGNORE, asked = False\<rparr>
      else if isInBotThread self tw thr \<and> \<not> includes_str (toLowerCase messageText) ''stop''
        then \<lparr>outcome = Responds, asked = False\<rparr>
      else if answer \<noteq> RESPOND then \<lparr>outcome = Returns ''Response Decision:'' answer, asked = True\<rparr>
      else \<lparr>outcome = Responds, asked = True\<rparr>)"

text \<open>
  The \<open>action\<close> of the object \<open>handleTweet\<close> returns, when it returns one.
\<close>

definition returned_action :: "handle_result \<Rightarrow> should_respond option" where
  "returned_action h = (case h of Returns t a \<Rightarrow> Some a | _ \<Rightarrow> None)"

text \<open>
  The specification's wording of the ownership rule: some post of the thread that
  \<open>ownerHandle\<close> wrote is an ancestor of the post.  \<open>ancestors thr n p\<close> follows
  \<open>inReplyToStatusId\<close> from \<open>p\<close> through the posts of \<open>thr\<close>, nearest first, for at most
  \<open>n\<close> steps.
\<close>

fun ancestors :: "tweet list \<Rightarrow> nat \<Rightarrow> tweet \<Rightarrow> tweet list" where
  "ancestors thr 0 p = []"
| "ancestors thr (Suc n) p =
     (case inReplyToStatusId p of
        None \<Rightarrow> []
      | Some parentId \<Rightarrow>
          (case find (\<lambda>t. tweet_id t = parentId) thr of
             None \<Rightarrow> []
           | Some t \<Rightarrow> t # ancestors thr n t))"

definition spec_owner_is_ancestor :: "string \<Rightarrow> tweet list \<Rightarrow> tweet \<Rightarrow> bool" where
  "spec_owner_is_ancestor ownerHandle thr p =
     list_ex (\<lambda>t. username t = ownerHandle) (ancestors thr (length thr) p)"

text \<open>
  A conversation the agent takes part in: alice's root, the agent's reply to it, bob's
  reply to the agent, and carol's reply to bob.
\<close>

definition post1 :: tweet where
  "post1 = \<lparr>tweet_id = ''1'', username = ''alice'', tweet_text = ''gm'',
             inReplyToStatusId = None, conversationId = ''1''\<rparr>"

definition post2 :: tweet where
  "post2 = \<lparr>tweet_id = ''2'', username = ''agent'', tweet_text = ''gm alice'',
             inReplyToStatusId = Some ''1'', conversationId = ''1''\<rparr>"

definition post3 :: tweet where
  "post3 = \<lparr>tweet_id = ''3'', username = ''bob'', tweet_text = ''Please STOP'',
             inReplyToStatusId = Some ''2'', conversationId = ''1''\<rparr>"

definition post4 :: tweet where
  "post4 = \<lparr>tweet_id = ''4'', username = ''carol'', tweet_text = ''nice'',
             inReplyToStatusId = Some ''3'', conversationId = ''1''\<rparr>"

definition own_post :: tweet where
  "own_post = \<lparr>tweet_id = ''9'', username = ''agent'', tweet_text = ''hello world'',
                inReplyToStatusId = None, conversationId = ''9''\<rparr>"

section \<open>post.ts: the timers of TwitterPostClient\<close>

text \<open>
  The fields of \<open>TwitterPostClient\<close>.  A timer field is \<open>Some d\<close> while the timer it
  names is pending, armed with a delay of \<open>d\<close> ms, and \<open>None\<close> when no such timer is
  pending (none was set, it has fired, or it was cleared).  Times are in ms.
\<close>

record twitter_post_client =
  tweetLoopTimeout :: "int option"
  timelineLoopTimeout :: "int option"
  lastProcessTime :: int
  isProcessing :: bool

definition new_post_client :: twitter_post_client where
  "new_post_client = \<lparr>tweetLoopTimeout = None, timelineLoopTimeout = None,
                       lastProcessTime = 0, isProcessing = False\<rparr>"

definition MIN_PROCESS_INTERVAL :: int where
  "MIN_PROCESS_INTERVAL = 15 * 60 * 1000"

text \<open>
  \<open>Math.floor(Math.random() * (max - min + 1)) + min\<close>, for the value \<open>rnd\<close> that
  \<open>Math.random()\<close> returns.
\<close>

definition random_minutes :: "real \<Rightarrow> int \<Rightarrow> int \<Rightarrow> int" where
  "random_minutes rnd lo hi = \<lfloor>rnd * real_of_int (hi - lo + 1)\<rfloor> + lo"

definition generateNewTweetLoop :: "real \<Rightarrow> twitter_post_client \<Rightarrow> twitter_post_client" where
  "generateNewTweetLoop rnd c = c\<lparr>tweetLoopTimeout := Some (random_minutes rnd 25 35 * 60 * 1000)\<rparr>"

text \<open>
  \<open>onReady\<close> clears both timers, starts the tweet loop and sets the first timeline
  check one minute ahead.  (\<open>generateNewTweet\<close> writes none of the fields above.)
\<close>

definition onReady :: "real \<Rightarrow> twitter_post_client \<Rightarrow> twitter_post_client" where
  "onReady rnd c =
     (let c1 = c\<lparr>timelineLoopTimeout := None, tweetLoopTimeout := None\<rparr>;
          c2 = generateNewTweetLoop rnd c1;
          initialTimelineDelay = 1 * 60 * 1000
      in c2\<lparr>timelineLoopTimeout := Some initialTimelineDelay\<rparr>)"

text \<open>
  \<open>processTweetActions\<close> at time \<open>now\<close>; \<open>failure\<close> is the error its body throws, if
  any.  The \<open>finally\<close> resets \<open>isProcessing\<close>.
\<close>

definition processTweetActions ::
  "int \<Rightarrow> js_error option \<Rightarrow> twitter_post_client \<Rightarrow> js_error option \<times> twitter_post_client" where
  "processTweetActions now failure c =
     (if isProcessing c then (None, c)
      else (failure, c\<lparr>lastProcessTime := now, isProcessing := False\<rparr>))"

text \<open>
  \<open>generateNewTimelineTweetLoop\<close> at time \<open>now\<close>.  The cooldown test returns before
  the \<open>try\<close>; the timer is set in the \<open>finally\<close> of that \<open>try\<close>.
\<close>

definition generateNewTimelineTweetLoop ::
  "int \<Rightarrow> real \<Rightarrow> js_error option \<Rightarrow> twitter_post_client \<Rightarrow> twitter_post_client" where
  "generateNewTimelineTweetLoop now rnd failure c =
     (let timeSinceLastProcess = now - lastProcessTime c
      in if timeSinceLastProcess < MIN_PROCESS_INTERVAL then c
         else
           let c1 = snd (processTweetActions now failure c);
               randomTimelineMinutes = random_minutes rnd 15 30
           in c1\<lparr>timelineLoopTimeout := Some (randomTimelineMinutes * 60 * 1000)\<rparr>)"

text \<open>The timeline timer fires: it is no longer pending, and its callback runs.\<close>

definition timeline_timer_fires ::
  "int \<Rightarrow> real \<Rightarrow> js_error option \<Rightarrow> twitter_post_client \<Rightarrow> twitter_post_client" where
  "timeline_timer_fires now rnd failure c =
     generateNewTimelineTweetLoop now rnd failure (c\<lparr>timelineLoopTimeout := None\<rparr>)"


section \<open>Properties of truncateToCompleteSentence\<close>

lemma truncate_short_unchanged:
  "length text \<le> MAX_TWEET_LENGTH \<Longrightarrow> truncateToCompleteSentence text = text"
  by (simp add: truncateToCompleteSentence_def)

lemma is_ws_a [simp]: "\<not> is_ws (CHR ''a'')"
  by (simp add: is_ws_def)

lemma is_ws_dot [simp]: "\<not> is_ws (CHR ''.'')"
  by (simp add: is_ws_def)

lemma lastIndexOf_end:
  "length pre = position \<Longrightarrow> lastIndexOf (pre @ [c]) c position = int position"
  by (simp add: lastIndexOf_def)

text \<open>
  Claim C10.  The claim says that the result never has more than
  \<open>MAX_TWEET_LENGTH = 240\<close> characters.  On the 241-character input made of 240 letters
  \<open>a\<close> followed by a period, \<open>lastIndexOf(".", 240)\<close> is 240, the slice
  \<open>[0, 241)\<close> is the whole input, and the function returns all 241 characters.
\<close>

theorem truncate_period_at_limit_too_long:
  "truncateToCompleteSentence (replicate 240 (CHR ''a'') @ ''.'') = replicate 240 (CHR ''a'') @ ''.''
   \<and> length (truncateToCompleteSentence (replicate 240 (CHR ''a'') @ ''.'')) = 241"
proof -
  let ?pre = "replicate 240 (CHR ''a'')"
  have idx: "lastIndexOf (?pre @ ''.'') (CHR ''.'') 240 = 240"
    using lastIndexOf_end [of ?pre 240 "CHR ''.''"] by simp
  have sl: "slice0 (?pre @ ''.'') (240 + 1) = ?pre @ ''.''"
    by (simp add: slice0_def)
  have tr: "trim (?pre @ ''.'') = ?pre @ ''.''"
    by (simp add: trim_def dropWhile_append3)
  have "truncateToCompleteSentence (?pre @ ''.'') = ?pre @ ''.''"
    unfolding truncateToCompleteSentence_def MAX_TWEET_LENGTH_def Let_def
    by (simp only: idx sl tr) simp
  then show ?thesis by simp
qed

section \<open>Properties of the realtime client\<close>

lemma handle_change_Some:
  assumes "handle_change data = Inr (Some u)"
  shows "change_type data = Some (JStr ''UPDATE'')"
    and "processing_stage data = Some (JStr ''completed'')"
    and "js_get_opt (record_of u) ''processing_stage'' = Some (JStr ''completed'')"
  using assms
  by (auto simp: handle_change_def change_of_def change_type_def processing_stage_def
        js_get_opt_def Let_def split: sum.splits if_splits)

text \<open>
  Claim C6.  Whenever \<open>ws.onmessage\<close> emits a \<open>tokenUpdate\<close>, the frame parsed, its
  change type is the string \<open>UPDATE\<close> and the processing stage of its record is the
  string \<open>completed\<close>, and the record handed on carries that stage; and a frame whose
  change type or whose stage is anything else leaves the client as it was.
\<close>

theorem onmessage_forwards_only_completed_updates:
  "(emitted (onmessage parse c raw) \<noteq> emitted c \<longrightarrow>
     (\<exists>data u. parse raw = Inr data
        \<and> emitted (onmessage parse c raw) = emitted c @ [u]
        \<and> change_type data = Some (JStr ''UPDATE'')
        \<and> processing_stage data = Some (JStr ''completed'')
        \<and> js_get_opt (record_of u) ''processing_stage'' = Some (JStr ''completed'')))
   \<and> (parse raw = Inr frame \<longrightarrow>
        (change_type frame \<noteq> Some (JStr ''UPDATE'')
         \<or> processing_stage frame \<noteq> Some (JStr ''completed'')) \<longrightarrow>
        onmessage parse c raw = c)"
proof (intro conjI impI)
  assume changed: "emitted (onmessage parse c raw) \<noteq> emitted c"
  then obtain data where p: "parse raw = Inr data"
    by (cases "parse raw") (auto simp: onmessage_def)
  with changed obtain u where h: "handle_change data = Inr (Some u)"
    by (cases "handle_change data") (auto simp: onmessage_def split: option.splits)
  have "emitted (onmessage parse c raw) = emitted c @ [u]"
    by (simp add: onmessage_def p h)
  with p handle_change_Some [OF h] show
    "\<exists>data u. parse raw = Inr data
        \<and> emitted (onmessage parse c raw) = emitted c @ [u]
        \<and> change_type data = Some (JStr ''UPDATE'')
        \<and> processing_stage data = Some (JStr ''completed'')
        \<and> js_get_opt (record_of u) ''processing_stage'' = Some (JStr ''completed'')"
    by blast
next
  assume p: "parse raw = Inr frame"
    and other: "change_type frame \<noteq> Some (JStr ''UPDATE'')
                \<or> processing_stage frame \<noteq> Some (JStr ''completed'')"
  have "handle_change frame \<noteq> Inr (Some u)" for u
    using handle_change_Some(1,2) [of frame u] other by auto
  then show "onmessage parse c raw = c"
    by (cases "handle_change frame") (auto simp: onmessage_def p split: option.splits)
qed

theorem onmessage_forwards_only_completed_updates_witness:
  "emitted (onmessage (\<lambda>raw. Inr completed_frame) idle_client ''frame'') \<noteq> emitted idle_client
   \<and> change_type completed_frame = Some (JStr ''UPDATE'')
   \<and> processing_stage completed_frame = Some (JStr ''completed'')
   \<and> processing_stage pending_frame \<noteq> Some (JStr ''completed'')
   \<and> onmessage (\<lambda>raw. Inr pending_frame) idle_client ''frame'' = idle_client"
proof -
  have a: "emitted (onmessage (\<lambda>raw. Inr completed_frame) idle_client ''frame'') \<noteq> emitted idle_client"
    by (simp add: onmessage_def handle_change_def completed_frame_def idle_client_def
          js_get_def js_get_opt_def truthy_def)
  have b: "processing_stage pending_frame \<noteq> Some (JStr ''completed'')"
    by (simp add: processing_stage_def change_of_def pending_frame_def js_get_def js_get_opt_def)
  from a onmessage_forwards_only_completed_updates
         [of "\<lambda>raw. Inr completed_frame" idle_client "''frame''"]
  have c: "change_type completed_frame = Some (JStr ''UPDATE'')
           \<and> processing_stage completed_frame = Some (JStr ''completed'')"
    by auto
  from b onmessage_forwards_only_completed_updates
         [of "\<lambda>raw. Inr pending_frame" idle_client "''frame''" pending_frame]
  have d: "onmessage (\<lambda>raw. Inr pending_frame) idle_client ''frame'' = idle_client"
    by simp
  from a b c d show ?thesis by simp
qed




section \<open>Properties of the token processing client\<close>

lemma enter_in_flight:
  "set_key_of a u = Some k \<Longrightarrow> k \<in> processingTokens c \<Longrightarrow> processTokenUpdate_enter c a u = c"
  by (simp add: processTokenUpdate_enter_def)

lemma guard_inv_new: "guard_inv new_client"
  by (simp add: guard_inv_def new_client_def)

lemma guard_inv_enter: "guard_inv c \<Longrightarrow> guard_inv (processTokenUpdate_enter c a u)"
  by (auto simp: guard_inv_def processTokenUpdate_enter_def split: option.splits)

lemma distinct_fst_remove1:
  "distinct (map fst xs) \<Longrightarrow> (k, u) \<in> set xs \<Longrightarrow>
     fst ` set (remove1 (k, u) xs) = fst ` set xs - {k} \<and> distinct (map fst (remove1 (k, u) xs))"
proof (induction xs)
  case Nil
  then show ?case by simp
next
  case (Cons x xs)
  show ?case
  proof (cases "x = (k, u)")
    case True
    with Cons.prems show ?thesis by force
  next
    case False
    with Cons.prems have mem: "(k, u) \<in> set xs" and d: "distinct (map fst xs)"
      and nx: "fst x \<notin> fst ` set xs"
      by auto
    from Cons.IH [OF d mem] have ih1: "fst ` set (remove1 (k, u) xs) = fst ` set xs - {k}"
      and ih2: "distinct (map fst (remove1 (k, u) xs))" by blast+
    from mem nx have "fst x \<noteq> k" by (metis fst_conv image_eqI)
    with False ih1 ih2 nx show ?thesis by auto
  qed
qed

lemma guard_inv_settle:
  "guard_inv c \<Longrightarrow> (k, u) \<in> set (in_flight c) \<Longrightarrow>
     guard_inv (processTokenUpdate_settle em parse c k u r)"
  using distinct_fst_remove1 [of "in_flight c" k u]
  by (auto simp: guard_inv_def processTokenUpdate_settle_def Let_def split: sum.splits)

lemma guard_inv_deliver: "guard_inv c \<Longrightarrow> guard_inv (deliver em parse c d)"
  by (cases d) (simp_all add: guard_inv_enter guard_inv_settle)

lemma guard_inv_foldl: "guard_inv c \<Longrightarrow> guard_inv (foldl (deliver em parse) c ds)"
  by (induction ds arbitrary: c) (simp_all add: guard_inv_deliver)

lemma guard_inv_deliveries: "guard_inv (deliveries em parse ds)"
  by (simp add: deliveries_def guard_inv_foldl guard_inv_new)

lemma one_handler_per_key:
  "distinct (map fst xs) \<Longrightarrow> k \<in> fst ` set xs \<Longrightarrow> length (filter (\<lambda>p. fst p = k) xs) = 1"
proof (induction xs)
  case Nil
  then show ?case by simp
next
  case (Cons x xs)
  show ?case
  proof (cases "fst x = k")
    case True
    with Cons.prems have "k \<notin> fst ` set xs" by auto
    then have "filter (\<lambda>p. fst p = k) xs = []"
      by (auto simp: filter_empty_conv)
    with True show ?thesis by simp
  next
    case False
    with Cons.prems have "distinct (map fst xs)" and "k \<in> fst ` set xs" by auto
    with Cons.IH False show ?thesis by simp
  qed
qed

lemma enter_admits:
  "set_key_of a u = Some k \<Longrightarrow> k \<in> processingTokens (processTokenUpdate_enter c a u)"
  by (simp add: processTokenUpdate_enter_def)

lemma primitive_key_by_value:
  "token_id_of u = Some v \<Longrightarrow> is_primitive v \<Longrightarrow> set_key_of a u = Some (ByValue v)"
  by (simp add: set_key_of_def)

lemma t1_key: "set_key_of a t1_update = Some (ByValue (JStr ''t1''))"
  by (simp add: set_key_of_def token_id_of_def t1_update_def js_get_opt_def js_get_def truthy_def
        is_primitive_def)

lemma t1_again_key: "set_key_of a t1_update_again = Some (ByValue (JStr ''t1''))"
  by (simp add: set_key_of_def token_id_of_def t1_update_again_def t1_update_def js_get_opt_def
        js_get_def truthy_def is_primitive_def)

lemma object_key: "set_key_of a object_update = Some (ByIdentity a)"
  by (simp add: set_key_of_def token_id_of_def object_update_def js_get_opt_def js_get_def
        truthy_def is_primitive_def)

text \<open>
  Claim C1 as stated, for every event key.  The token id of an update is any JSON
  value.  Two frames carry the same token id, an object; \<open>JSON.parse\<close> gives each frame
  an object of its own, the \<open>Set\<close> compares objects by identity, and the second delivery
  is admitted while the first is in flight: two handler bodies for the same token id
  are in flight together.
\<close>

theorem object_token_id_counterexample:
  "token_id_of object_update = Some (JObj [(''mint'', JStr ''t2'')])
   \<and> in_flight (deliveries example_message example_parse
                  [Deliver 11 object_update, Deliver 12 object_update])
       = [(ByIdentity 11, object_update), (ByIdentity 12, object_update)]"
proof -
  have "token_id_of object_update = Some (JObj [(''mint'', JStr ''t2'')])"
    by (simp add: token_id_of_def object_update_def js_get_opt_def js_get_def truthy_def)
  moreover have "in_flight (deliveries example_message example_parse
                  [Deliver 11 object_update, Deliver 12 object_update])
       = [(ByIdentity 11, object_update), (ByIdentity 12, object_update)]"
    by (simp add: deliveries_def processTokenUpdate_enter_def object_key new_client_def)
  ultimately show ?thesis by simp
qed

text \<open>
  Claim C1, amended.  A token id that is a string, a number or a boolean is one key of
  the guard set wherever it is delivered from.  In every state the client can reach, no
  two handler bodies in flight have the same key; when an update with key \<open>k\<close> is
  delivered and another update with the same key is delivered before the handler has
  settled, the second call returns with the client unchanged and exactly one handler
  body for \<open>k\<close> is in flight; and a delivery whose key is in the guard set changes
  nothing.  (An object or array token id is the same key only when it is the same
  object.)
\<close>

theorem redelivery_while_in_flight_runs_one_handler:
  "distinct (map fst (in_flight (deliveries em parse ds)))
   \<and> (token_id_of u = Some v \<longrightarrow> is_primitive v \<longrightarrow> token_id_of u' = Some v \<longrightarrow>
        set_key_of a u = Some (ByValue v) \<and> set_key_of a' u' = Some (ByValue v))
   \<and> (set_key_of a u = Some k \<longrightarrow> set_key_of a' u' = Some k \<longrightarrow>
        processTokenUpdate_enter (processTokenUpdate_enter (deliveries em parse ds) a u) a' u'
          = processTokenUpdate_enter (deliveries em parse ds) a u
        \<and> length (filter (\<lambda>p. fst p = k)
             (in_flight (processTokenUpdate_enter
                (processTokenUpdate_enter (deliveries em parse ds) a u) a' u'))) = 1)
   \<and> (set_key_of a u = Some k \<longrightarrow> k \<in> processingTokens (deliveries em parse ds) \<longrightarrow>
        processTokenUpdate_enter (deliveries em parse ds) a u = deliveries em parse ds)"
proof (intro conjI impI)
  let ?c = "deliveries em parse ds"
  let ?c1 = "processTokenUpdate_enter ?c a u"
  have inv: "guard_inv ?c" by (rule guard_inv_deliveries)
  then show "distinct (map fst (in_flight ?c))" by (simp add: guard_inv_def)
  have inv1: "guard_inv ?c1" using inv by (rule guard_inv_enter)
  {
    assume "token_id_of u = Some v" and "is_primitive v"
    then show "set_key_of a u = Some (ByValue v)" by (rule primitive_key_by_value)
  }
  {
    assume "token_id_of u' = Some v" and "is_primitive v"
    then show "set_key_of a' u' = Some (ByValue v)" by (rule primitive_key_by_value)
  }
  {
    assume k: "set_key_of a u = Some k" and k': "set_key_of a' u' = Some k"
    from k have mem: "k \<in> processingTokens ?c1" by (rule enter_admits)
    with k' show again: "processTokenUpdate_enter ?c1 a' u' = ?c1" by (rule enter_in_flight)
    from inv1 mem have "k \<in> fst ` set (in_flight ?c1)" and "distinct (map fst (in_flight ?c1))"
      by (simp_all add: guard_inv_def)
    then have "length (filter (\<lambda>p. fst p = k) (in_flight ?c1)) = 1"
      by (simp add: one_handler_per_key)
    then show "length (filter (\<lambda>p. fst p = k) (in_flight (processTokenUpdate_enter ?c1 a' u'))) = 1"
      by (simp only: again)
  }
  {
    assume "set_key_of a u = Some k" and "k \<in> processingTokens ?c"
    then show "processTokenUpdate_enter ?c a u = ?c" by (rule enter_in_flight)
  }
qed

theorem redelivery_while_in_flight_runs_one_handler_witness:
  "token_id_of t1_update = Some (JStr ''t1'') \<and> is_primitive (JStr ''t1'')
   \<and> token_id_of t1_update_again = Some (JStr ''t1'')
   \<and> set_key_of 11 t1_update = Some (ByValue (JStr ''t1''))
   \<and> set_key_of 12 t1_update_again = Some (ByValue (JStr ''t1''))
   \<and> ByValue (JStr ''t1'') \<in> processingTokens (deliveries example_message example_parse [Deliver 11 t1_update])
   \<and> processTokenUpdate_enter (deliveries example_message example_parse [Deliver 11 t1_update]) 12 t1_update_again
        = deliveries example_message example_parse [Deliver 11 t1_update]
   \<and> in_flight (deliveries example_message example_parse [Deliver 11 t1_update, Deliver 12 t1_update_again])
        = [(ByValue (JStr ''t1''), t1_update)]"
proof -
  let ?c1 = "deliveries example_message example_parse [Deliver 11 t1_update]"
  have tk: "token_id_of t1_update = Some (JStr ''t1'')"
    by (simp add: token_id_of_def t1_update_def js_get_opt_def js_get_def truthy_def)
  have tk': "token_id_of t1_update_again = Some (JStr ''t1'')"
    by (simp add: token_id_of_def t1_update_again_def t1_update_def js_get_opt_def js_get_def
          truthy_def)
  have pr: "is_primitive (JStr ''t1'')"
    by (simp add: is_primitive_def)
  have c1: "?c1 = \<lparr>processingTokens = {ByValue (JStr ''t1'')},
                    in_flight = [(ByValue (JStr ''t1''), t1_update)], events = []\<rparr>"
    by (simp add: deliveries_def processTokenUpdate_enter_def t1_key new_client_def)
  have mem: "ByValue (JStr ''t1'') \<in> processingTokens ?c1"
    by (simp add: c1)
  note inst = redelivery_while_in_flight_runs_one_handler
         [where em = example_message and parse = example_parse and ds = "[Deliver 11 t1_update]"
            and u = t1_update_again and v = "JStr ''t1''" and u' = t1_update_again
            and a = 12 and a' = 12 and k = "ByValue (JStr ''t1'')"]
  from inst tk' pr have keys: "set_key_of 12 t1_update_again = Some (ByValue (JStr ''t1''))"
    by simp
  from inst keys mem
  have drop: "processTokenUpdate_enter ?c1 12 t1_update_again = ?c1"
    by simp
  have c2: "deliveries example_message example_parse [Deliver 11 t1_update, Deliver 12 t1_update_again]
      = processTokenUpdate_enter ?c1 12 t1_update_again"
    by (simp add: deliveries_def)
  have fl: "in_flight ?c1 = [(ByValue (JStr ''t1''), t1_update)]"
    by (simp add: c1)
  from tk tk' pr keys mem drop c2 fl t1_key [of 11] show ?thesis by simp
qed

text \<open>
  Claim C9.  Whatever the collaborators of the handler body answer, once the handler
  of key \<open>k\<close> has settled \<open>k\<close> is no longer in the guard set, and exactly one event
  has been emitted: \<open>processingComplete\<close> when the body ran to its end, \<open>processingError\<close>
  with the message of the error otherwise.  In every state the client can reach, the
  guard set holds the keys of the handlers in flight and nothing else, and this
  is so again after a handler in flight has settled.
\<close>

theorem guard_released_on_every_path:
  "k \<notin> processingTokens (processTokenUpdate_settle em parse c k u r)
   \<and> events (processTokenUpdate_settle em parse c k u r)
       = events c @ [case handler_body em parse r of
                       Inr analysis \<Rightarrow> ProcessingComplete k
                     | Inl e \<Rightarrow> ProcessingError k (message_or_unknown em e)]
   \<and> processingTokens (deliveries em parse ds) = fst ` set (in_flight (deliveries em parse ds))
   \<and> ((k, u) \<in> set (in_flight (deliveries em parse ds)) \<longrightarrow>
        processingTokens (processTokenUpdate_settle em parse (deliveries em parse ds) k u r)
          = fst ` set (in_flight (deliveries em parse ds)) - {k}
        \<and> fst ` set (in_flight (processTokenUpdate_settle em parse (deliveries em parse ds) k u r))
          = fst ` set (in_flight (deliveries em parse ds)) - {k})"
proof (intro conjI impI)
  let ?c = "deliveries em parse ds"
  show "k \<notin> processingTokens (processTokenUpdate_settle em parse c k u r)"
    by (simp add: processTokenUpdate_settle_def Let_def split: sum.splits)
  show "events (processTokenUpdate_settle em parse c k u r)
       = events c @ [case handler_body em parse r of
                       Inr analysis \<Rightarrow> ProcessingComplete k
                     | Inl e \<Rightarrow> ProcessingError k (message_or_unknown em e)]"
    by (simp add: processTokenUpdate_settle_def Let_def split: sum.splits)
  have inv: "guard_inv ?c" by (rule guard_inv_deliveries)
  then show c: "processingTokens ?c = fst ` set (in_flight ?c)"
    by (simp add: guard_inv_def)
  {
    assume mem: "(k, u) \<in> set (in_flight ?c)"
    with inv have inv': "guard_inv (processTokenUpdate_settle em parse ?c k u r)"
      by (rule guard_inv_settle)
    have p: "processingTokens (processTokenUpdate_settle em parse ?c k u r) = processingTokens ?c - {k}"
      by (simp add: processTokenUpdate_settle_def Let_def split: sum.splits)
    with c show q: "processingTokens (processTokenUpdate_settle em parse ?c k u r)
          = fst ` set (in_flight ?c) - {k}"
      by simp
    from inv' have "fst ` set (in_flight (processTokenUpdate_settle em parse ?c k u r))
        = processingTokens (processTokenUpdate_settle em parse ?c k u r)"
      by (simp add: guard_inv_def)
    with q show "fst ` set (in_flight (processTokenUpdate_settle em parse ?c k u r))
          = fst ` set (in_flight ?c) - {k}"
      by simp
  }
qed

theorem guard_released_on_every_path_witness:
  "(ByValue (JStr ''t1''), t1_update)
     \<in> set (in_flight (deliveries example_message example_parse [Deliver 11 t1_update]))
   \<and> processingTokens (processTokenUpdate_settle example_message example_parse
        (deliveries example_message example_parse [Deliver 11 t1_update])
        (ByValue (JStr ''t1'')) t1_update failing_run) = {}
   \<and> events (processTokenUpdate_settle example_message example_parse
        (deliveries example_message example_parse [Deliver 11 t1_update])
        (ByValue (JStr ''t1'')) t1_update failing_run)
       = [ProcessingError (ByValue (JStr ''t1'')) ''model unavailable'']
   \<and> events (processTokenUpdate_settle example_message example_parse
        (deliveries example_message example_parse [Deliver 11 t1_update])
        (ByValue (JStr ''t1'')) t1_update good_run)
       = [ProcessingComplete (ByValue (JStr ''t1''))]"
proof -
  let ?c1 = "deliveries example_message example_parse [Deliver 11 t1_update]"
  let ?k = "ByValue (JStr ''t1'')"
  have c1: "?c1 = \<lparr>processingTokens = {?k}, in_flight = [(?k, t1_update)], events = []\<rparr>"
    by (simp add: deliveries_def processTokenUpdate_enter_def t1_key new_client_def)
  have mem: "(?k, t1_update) \<in> set (in_flight ?c1)"
    by (simp add: c1)
  have bad: "handler_body example_message example_parse failing_run = Inl (Error ''model unavailable'')"
    by (simp add: handler_body_def failing_run_def good_run_def)
  have va: "validate_analysis good_analysis = Inr good_analysis"
    by (simp add: validate_analysis_def good_analysis_def js_get_def js_get_opt_def truthy_def)
  have good: "handler_body example_message example_parse good_run = Inr good_analysis"
    by (simp add: handler_body_def good_run_def parse_analysis_def example_parse_def va)
  have msg: "message_or_unknown example_message (Error ''model unavailable'') = ''model unavailable''"
    by (simp add: message_or_unknown_def message_of_def)
  from guard_released_on_every_path [of ?k example_message example_parse ?c1
         t1_update failing_run "[Deliver 11 t1_update]"] mem
  have f: "processingTokens (processTokenUpdate_settle example_message example_parse ?c1
             ?k t1_update failing_run) = {}"
    and fe: "events (processTokenUpdate_settle example_message example_parse ?c1
             ?k t1_update failing_run) = [ProcessingError ?k ''model unavailable'']"
    by (simp_all add: c1 bad msg)
  from guard_released_on_every_path [of ?k example_message example_parse ?c1
         t1_update good_run "[Deliver 11 t1_update]"]
  have ge: "events (processTokenUpdate_settle example_message example_parse ?c1
             ?k t1_update good_run) = [ProcessingComplete ?k]"
    by (simp add: c1 good)
  from mem f fe ge show ?thesis by simp
qed

section \<open>Properties of thread resolution\<close>

lemma thread_inv_push:
  "thread_inv s \<Longrightarrow> tweet_id t \<notin> visited s \<Longrightarrow>
     thread_inv (s\<lparr>visited := insert (tweet_id t) (visited s), thread := t # thread s\<rparr>)"
  by (auto simp: thread_inv_def)

lemma thread_inv_fetched: "thread_inv s \<Longrightarrow> thread_inv (s\<lparr>fetched := f\<rparr>)"
  by (simp add: thread_inv_def)

lemma thread_inv_memories: "thread_inv s \<Longrightarrow> thread_inv (s\<lparr>memories := m\<rparr>)"
  by (simp add: thread_inv_def)

lemma processThread_keeps_inv:
  "thread_inv s \<Longrightarrow>
     thread_inv (snd (processThread this maxReplies currentTweet depth s))
     \<and> length (fetched (snd (processThread this maxReplies currentTweet depth s)))
         \<le> length (fetched s) + (maxReplies - depth)
     \<and> length (thread (snd (processThread this maxReplies currentTweet depth s)))
         \<le> length (thread s) + (maxReplies - depth)"
proof (induction this maxReplies currentTweet depth s rule: processThread.induct)
  case (1 this maxReplies currentTweet depth s)
  show ?case
  proof (cases "maxReplies \<le> depth")
    case True
    then have "processThread this maxReplies currentTweet depth s = (None, s)"
      by (subst processThread.simps) simp
    with "1.prems" show ?thesis by simp
  next
    case deep: False
    show ?thesis
    proof (cases this)
      case None
      with deep have "processThread this maxReplies currentTweet depth s = (Some TypeError, s)"
        by (subst processThread.simps) simp
      with "1.prems" show ?thesis by simp
    next
      case (Some self)
      from deep have pos: "1 \<le> maxReplies - depth"
        and dec: "maxReplies - depth = Suc (maxReplies - (depth + 1))"
        by simp_all
      let ?s1 = "store_memory currentTweet s"
      have inv1: "thread_inv ?s1"
        using "1.prems" by (simp add: store_memory_def thread_inv_memories)
      have f1: "fetched ?s1 = fetched s" and t1: "thread ?s1 = thread s"
        and v1: "visited ?s1 = visited s"
        by (simp_all add: store_memory_def)
      show ?thesis
      proof (cases "tweet_id currentTweet \<in> visited s")
        case True
        with deep Some v1 have "processThread this maxReplies currentTweet depth s = (None, ?s1)"
          by (subst processThread.simps) (simp add: Let_def)
        with inv1 f1 t1 show ?thesis by simp
      next
        case fresh: False
        let ?s2 = "?s1\<lparr>visited := insert (tweet_id currentTweet) (visited ?s1),
                        thread := currentTweet # thread ?s1\<rparr>"
        have fresh1: "tweet_id currentTweet \<notin> visited ?s1" using fresh v1 by simp
        have inv2: "thread_inv ?s2"
          using inv1 fresh1 by (rule thread_inv_push)
        have f2: "fetched ?s2 = fetched s" and t2: "length (thread ?s2) = Suc (length (thread s))"
          using f1 t1 by simp_all
        show ?thesis
        proof (cases "inReplyToStatusId currentTweet")
          case None
          have "processThread this maxReplies currentTweet depth s = (None, ?s2)"
            using deep \<open>this = Some self\<close> fresh v1 None
            by (subst processThread.simps) (simp add: Let_def)
          with inv2 f2 t2 pos show ?thesis by (simp; arith)
        next
          case (Some parentId)
          note parent = this
          show ?thesis
          proof (cases "parentId = []")
            case True
            have "processThread this maxReplies currentTweet depth s = (None, ?s2)"
              using deep \<open>this = Some self\<close> fresh v1 parent True
              by (subst processThread.simps) (simp add: Let_def)
            with inv2 f2 t2 pos show ?thesis by (simp; arith)
          next
            case nonempty: False
            let ?s3 = "?s2\<lparr>fetched := fetched ?s2 @ [parentId]\<rparr>"
            have inv3: "thread_inv ?s3" using inv2 by (rule thread_inv_fetched)
            have f3: "length (fetched ?s3) = Suc (length (fetched s))"
              and t3: "length (thread ?s3) = Suc (length (thread s))"
              using f2 t2 by simp_all
            show ?thesis
            proof (cases "getTweet self parentId")
              case Rejected
              have "processThread this maxReplies currentTweet depth s = (None, ?s3)"
                using deep \<open>this = Some self\<close> fresh v1 parent nonempty Rejected
                by (subst processThread.simps) (simp add: Let_def)
              with inv3 f3 t3 pos show ?thesis by (simp; arith)
            next
              case NoTweet
              have "processThread this maxReplies currentTweet depth s = (None, ?s3)"
                using deep \<open>this = Some self\<close> fresh v1 parent nonempty NoTweet
                by (subst processThread.simps) (simp add: Let_def)
              with inv3 f3 t3 pos show ?thesis by (simp; arith)
            next
              case (Found parentTweet)
              have eq: "processThread this maxReplies currentTweet depth s
                  = (None, snd (processThread None maxReplies parentTweet (depth + 1) ?s3))"
                using deep \<open>this = Some self\<close> fresh v1 parent nonempty Found
                by (subst processThread.simps) (simp add: Let_def)
              have ih: "thread_inv (snd (processThread None maxReplies parentTweet (depth + 1) ?s3))
                 \<and> length (fetched (snd (processThread None maxReplies parentTweet (depth + 1) ?s3)))
                     \<le> length (fetched ?s3) + (maxReplies - (depth + 1))
                 \<and> length (thread (snd (processThread None maxReplies parentTweet (depth + 1) ?s3)))
                     \<le> length (thread ?s3) + (maxReplies - (depth + 1))"
                using "1.IH" [OF deep \<open>this = Some self\<close> refl fresh1 refl parent nonempty refl Found inv3] .
              from ih eq f3 t3 dec show ?thesis by (simp; arith)
            qed
          qed
        qed
      qed
    qed
  qed
qed

lemma processThread_bound_returns:
  "fst (processThread (Some self) maxReplies currentTweet depth s) = None"
  by (subst processThread.simps) (simp add: Let_def split: option.splits fetch_result.splits)

lemma new_resolution_inv: "thread_inv (new_resolution mem)"
  by (simp add: thread_inv_def new_resolution_def)

text \<open>
  Claim C2.  \<open>buildConversationThread\<close> is a total function: for every client (so for
  every reply graph \<open>getTweet\<close> describes, cyclic or not), memory store, leaf and
  \<open>maxReplies\<close> it returns a thread; no tweet id occurs twice in that thread, which has
  at most \<open>maxReplies\<close> posts; and \<open>getTweet\<close> was called at most \<open>maxReplies + 1\<close>
  times.
\<close>

theorem thread_resolution_terminates_without_repeats:
  "\<exists>thr. buildConversationThread self mem leaf maxReplies = Inr thr
     \<and> distinct (map tweet_id thr)
     \<and> length thr \<le> maxReplies
     \<and> length (fetched (snd (resolve self mem leaf maxReplies))) \<le> maxReplies + 1"
proof -
  let ?r = "resolve self mem leaf maxReplies"
  have ok: "fst ?r = None"
    by (simp only: resolve_def processThread_bound_returns)
  have inv: "thread_inv (snd ?r)
      \<and> length (fetched (snd ?r)) \<le> length (fetched (new_resolution mem)) + (maxReplies - 0)
      \<and> length (thread (snd ?r)) \<le> length (thread (new_resolution mem)) + (maxReplies - 0)"
    using processThread_keeps_inv [OF new_resolution_inv, where this = "Some self"
          and maxReplies = maxReplies and currentTweet = leaf and depth = 0 and mem1 = mem]
    by (simp add: resolve_def)
  have b: "buildConversationThread self mem leaf maxReplies = Inr (thread (snd ?r))"
    using ok by (cases ?r) (simp add: buildConversationThread_def)
  from inv have "distinct (map tweet_id (thread (snd ?r)))"
    and "length (thread (snd ?r)) \<le> maxReplies"
    and "length (fetched (snd ?r)) \<le> maxReplies + 1"
    by (simp_all add: thread_inv_def new_resolution_def)
  with b show ?thesis by blast
qed

lemma cycle_is_cut:
  "buildConversationThread cycle_client {} tweetB 5 = Inr [tweetB]"
  by (simp add: buildConversationThread_def resolve_def new_resolution_def cycle_client_def
        tweetB_def tweetA_def processThread.simps store_memory_def)

text \<open>
  Claim C3 as stated, second scenario: resolving from C with a maximal depth of 1
  yields \<open>[B, C]\<close>.  The depth test counts the leaf: the parent B is fetched and the
  call on it, at depth 1, returns before B is added.
\<close>

theorem chain_depth_1_counterexample:
  "buildConversationThread chain_client {} tweetC 1 \<noteq> Inr [tweetB, tweetC]"
  by (simp add: buildConversationThread_def resolve_def new_resolution_def chain_client_def
        tweetC_def tweetB_def processThread.simps store_memory_def)

text \<open>
  Claim C3, amended.  For the chain A \<open>\<leftarrow>\<close> B \<open>\<leftarrow>\<close> C, resolving from the leaf C with a
  maximal depth of 1 yields \<open>[C]\<close>; with a maximal depth of 5 the thread is a
  non-empty end piece of \<open>[A, B, C]\<close>, root-most post first and the leaf C last.
\<close>

theorem chain_resolution_from_leaf:
  "buildConversationThread chain_client mem tweetC 1 = Inr [tweetC]
   \<and> (\<exists>thr. buildConversationThread chain_client mem tweetC 5 = Inr thr
        \<and> suffix thr [tweetA, tweetB, tweetC] \<and> thr \<noteq> [] \<and> last thr = tweetC)"
proof -
  have one: "buildConversationThread chain_client mem tweetC 1 = Inr [tweetC]"
    by (simp add: buildConversationThread_def resolve_def new_resolution_def chain_client_def
          tweetC_def tweetB_def processThread.simps store_memory_def)
  have five: "buildConversationThread chain_client mem tweetC 5 = Inr [tweetC]"
    by (simp add: buildConversationThread_def resolve_def new_resolution_def chain_client_def
          tweetC_def tweetB_def processThread.simps store_memory_def)
  have "suffix [tweetC] [tweetA, tweetB, tweetC]"
    by (simp add: suffix_def)
  with one five show ?thesis by simp
qed

section \<open>Properties of the response decision\<close>

lemma lower_plain [simp]:
  "toLowerCase [] = []" "toLowerCase ''nice'' = ''nice''" "toLowerCase ''thanks'' = ''thanks''"
  "toLowerCase ''Please STOP'' = ''please stop''"
  by (simp_all add: toLowerCase_def lower_char_def)

text \<open>
  Claim C4 as stated.  In the thread alice, agent, bob, carol the agent's post is an
  ancestor of carol's post, which does not contain the stop keyword; it is neither
  the direct parent nor the conversation root, so \<open>generateShouldRespond\<close> is asked and
  its \<open>IGNORE\<close> is the verdict.  And bob's reply to the agent with an empty body is
  answered with \<open>IGNORE\<close> by the empty-text test, whatever the collaborator would say.
\<close>

theorem owner_ancestor_counterexample:
  "spec_owner_is_ancestor (twitterUsername chain_client) [post1, post2, post3, post4] post4
   \<and> \<not> includes_str (toLowerCase (tweet_text post4)) ''stop''
   \<and> handleTweet chain_client IGNORE post4 (tweet_text post4) [post1, post2, post3, post4]
       = \<lparr>outcome = Returns ''Response Decision:'' IGNORE, asked = True\<rparr>
   \<and> spec_owner_is_ancestor (twitterUsername chain_client) [post1, post2, post3] post3
   \<and> \<not> includes_str (toLowerCase []) ''stop''
   \<and> handleTweet chain_client RESPOND post3 [] [post1, post2, post3]
       = \<lparr>outcome = Returns [] IGNORE, asked = False\<rparr>"
  by (simp add: spec_owner_is_ancestor_def handleTweet_def isStandalone_def isInBotThread_def
        chain_client_def post1_def post2_def post3_def post4_def)

text \<open>
  Claim C4, amended.  For every post that is not the agent's standalone post, whose
  body text is not empty and whose thread has a post written by the agent whose id
  is the post's \<open>inReplyToStatusId\<close> or its \<open>conversationId\<close>: when the body text in
  lower case does not contain \<open>stop\<close>, \<open>handleTweet\<close> goes on to respond and
  \<open>generateShouldRespond\<close> is not called; when it does, \<open>generateShouldRespond\<close> is
  called and its answer decides.
\<close>

theorem in_bot_thread_forces_response:
  assumes "isInBotThread self tw thr" and "messageText \<noteq> []" and "\<not> isStandalone self tw thr"
  shows "(\<not> includes_str (toLowerCase messageText) ''stop'' \<longrightarrow>
            handleTweet self answer tw messageText thr = \<lparr>outcome = Responds, asked = False\<rparr>)
       \<and> (includes_str (toLowerCase messageText) ''stop'' \<longrightarrow>
            handleTweet self answer tw messageText thr
              = \<lparr>outcome = (if answer = RESPOND then Responds
                            else Returns ''Response Decision:'' answer),
                 asked = True\<rparr>)"
  using assms by (simp add: handleTweet_def)

theorem in_bot_thread_forces_response_witness:
  "isInBotThread chain_client post3 [post1, post2, post3]
   \<and> \<not> isStandalone chain_client post3 [post1, post2, post3]
   \<and> \<not> includes_str (toLowerCase ''thanks'') ''stop''
   \<and> handleTweet chain_client IGNORE post3 ''thanks'' [post1, post2, post3]
       = \<lparr>outcome = Responds, asked = False\<rparr>
   \<and> includes_str (toLowerCase ''Please STOP'') ''stop''
   \<and> handleTweet chain_client IGNORE post3 ''Please STOP'' [post1, post2, post3]
       = \<lparr>outcome = Returns ''Response Decision:'' IGNORE, asked = True\<rparr>"
proof -
  have a: "isInBotThread chain_client post3 [post1, post2, post3]"
    by (simp add: isInBotThread_def chain_client_def post1_def post2_def post3_def)
  have b: "\<not> isStandalone chain_client post3 [post1, post2, post3]"
    by (simp add: isStandalone_def)
  have c: "\<not> includes_str (toLowerCase ''thanks'') ''stop''"
    by simp
  have d: "includes_str (toLowerCase ''Please STOP'') ''stop''"
    by simp
  have n1: "''thanks'' \<noteq> []" and n2: "''Please STOP'' \<noteq> []"
    by simp_all
  from in_bot_thread_forces_response [OF a n1 b, of IGNORE] c
       in_bot_thread_forces_response [OF a n2 b, of IGNORE] d a b
  show ?thesis by simp
qed

text \<open>
  Claim C5 as stated: for the agent's own standalone post the pipeline returns STOP.
  \<open>own_post\<close> is written by the agent, has no parent and is alone in its thread;
  \<open>handleTweet\<close> ends in the bare \<open>return\<close> of its first test, so what it returns
  carries no action, \<open>STOP\<close> or other, even when the collaborator would answer \<open>STOP\<close>.
\<close>

theorem standalone_returns_no_stop_counterexample:
  "username own_post = twitterUsername chain_client \<and> inReplyToStatusId own_post = None
   \<and> length [own_post] = 1
   \<and> outcome (handleTweet chain_client STOP own_post (tweet_text own_post) [own_post]) = ReturnsNothing
   \<and> returned_action (outcome (handleTweet chain_client STOP own_post (tweet_text own_post) [own_post]))
       \<noteq> Some STOP"
  by (simp add: handleTweet_def isStandalone_def returned_action_def own_post_def chain_client_def)

text \<open>
  Claim C5, amended.  For a post the agent wrote itself, with no parent and a thread of
  exactly one element, \<open>handleTweet\<close> returns at its first test without a value:
  \<open>generateShouldRespond\<close> is not called, no response is generated and nothing is sent,
  whatever the collaborator would have answered.
\<close>

theorem standalone_own_post_is_skipped:
  assumes "username tw = twitterUsername self" and "inReplyToStatusId tw = None"
    and "length thr = 1"
  shows "handleTweet self answer tw messageText thr = \<lparr>outcome = ReturnsNothing, asked = False\<rparr>"
  using assms by (simp add: handleTweet_def isStandalone_def)

theorem standalone_own_post_is_skipped_witness:
  "username own_post = twitterUsername chain_client \<and> inReplyToStatusId own_post = None
   \<and> length [own_post] = 1
   \<and> handleTweet chain_client RESPOND own_post (tweet_text own_post) [own_post]
       = \<lparr>outcome = ReturnsNothing, asked = False\<rparr>"
proof -
  have a: "username own_post = twitterUsername chain_client"
    by (simp add: own_post_def chain_client_def)
  have b: "inReplyToStatusId own_post = None"
    by (simp add: own_post_def)
  have c: "length [own_post] = 1"
    by simp
  from standalone_own_post_is_skipped [OF a b c, of RESPOND "tweet_text own_post"] a b
  show ?thesis by simp
qed

section \<open>Properties of the timers\<close>

lemma random_minutes_in_window:
  assumes "0 \<le> rnd" and "rnd < 1" and "lo \<le> hi"
  shows "lo \<le> random_minutes rnd lo hi \<and> random_minutes rnd lo hi \<le> hi"
proof -
  let ?n = "real_of_int (hi - lo + 1)"
  have pos: "0 < ?n" using assms(3) by simp
  have "0 \<le> rnd * ?n" using assms(1) pos by simp
  then have lo: "0 \<le> \<lfloor>rnd * ?n\<rfloor>" by simp
  have "rnd * ?n < ?n" using assms(2) pos by simp
  then have "\<lfloor>rnd * ?n\<rfloor> < hi - lo + 1" by (simp only: floor_less_iff)
  with lo show ?thesis by (simp add: random_minutes_def)
qed

lemma timeline_rearmed_after_run:
  assumes "MIN_PROCESS_INTERVAL \<le> now - lastProcessTime c"
  shows "timelineLoopTimeout (generateNewTimelineTweetLoop now rnd failure c)
           = Some (random_minutes rnd 15 30 * 60 * 1000)"
  using assms by (simp add: generateNewTimelineTweetLoop_def Let_def)

lemma timeline_skip_changes_nothing:
  assumes "now - lastProcessTime c < MIN_PROCESS_INTERVAL"
  shows "timeline_timer_fires now rnd failure c = c\<lparr>timelineLoopTimeout := None\<rparr>"
  using assms by (simp add: timeline_timer_fires_def generateNewTimelineTweetLoop_def Let_def)

text \<open>
  Claim C7.  The claim says that the timeline loop schedules its next iteration after
  a skipped run.  The client is started, its first timeline check runs at time
  1700000060000 and sets the next timer; \<open>onReady\<close> is called again and the check it
  schedules runs two minutes after the first: the cooldown has not elapsed, the run is
  skipped, and afterwards no timeline timer is pending.
\<close>

theorem timeline_loop_dies_after_skipped_run:
  "timelineLoopTimeout (timeline_timer_fires 1700000060000 0 None (onReady 0 new_post_client))
     = Some 900000
   \<and> lastProcessTime (timeline_timer_fires 1700000060000 0 None (onReady 0 new_post_client))
     = 1700000060000
   \<and> timelineLoopTimeout
       (timeline_timer_fires 1700000180000 0 None
          (onReady 0 (timeline_timer_fires 1700000060000 0 None (onReady 0 new_post_client))))
     = None"
  by (simp add: timeline_timer_fires_def generateNewTimelineTweetLoop_def onReady_def
        generateNewTweetLoop_def processTweetActions_def new_post_client_def
        MIN_PROCESS_INTERVAL_def random_minutes_def Let_def)

end
